theory Spec2Isabelle
  imports Main "HOL-Library.Word"
begin

section \<open>The PostgreSQL dialect of toyorm: statement builders and the search compiler\<close>

text \<open>
  The development embeds \<^verbatim>\<open>dialect_postgres.go\<close>. Panics of the Go code are values of
  the type \<open>panic\<close>; a function that can panic returns \<open>panic + 'a\<close>, with \<open>Inl\<close> the panic.
\<close>

subsection \<open>Library functions of Go used by the dialect\<close>

text \<open>\<^verbatim>\<open>strings.Join\<close>: the elements separated by \<open>sep\<close>.\<close>

fun Join :: "string list \<Rightarrow> string \<Rightarrow> string" where
  "Join [] sep = []"
| "Join [x] sep = x"
| "Join (x # y # ys) sep = x @ sep @ Join (y # ys) sep"

text \<open>\<^verbatim>\<open>strings.Repeat\<close>: \<open>n\<close> copies of \<open>s\<close>.\<close>

fun Repeat :: "string \<Rightarrow> nat \<Rightarrow> string" where
  "Repeat s 0 = []"
| "Repeat s (Suc n) = s @ Repeat s n"

text \<open>\<^verbatim>\<open>strings.HasSuffix\<close> and \<^verbatim>\<open>strings.TrimSuffix\<close>: the suffix is removed once when present.\<close>

definition HasSuffix :: "string \<Rightarrow> string \<Rightarrow> bool" where
  "HasSuffix s suffix =
     (length suffix \<le> length s \<and> drop (length s - length suffix) s = suffix)"

definition TrimSuffix :: "string \<Rightarrow> string \<Rightarrow> string" where
  "TrimSuffix s suffix =
     (if HasSuffix s suffix then take (length s - length suffix) s else s)"

text \<open>The verb \<^verbatim>\<open>%d\<close> of \<^verbatim>\<open>fmt.Sprintf\<close>: decimal digits, with a minus sign below zero.\<close>

definition digit_char :: "nat \<Rightarrow> char" where
  "digit_char d = char_of (48 + d)"

fun format_nat :: "nat \<Rightarrow> string" where
  "format_nat n =
     (if n < 10 then [digit_char n] else format_nat (n div 10) @ [digit_char (n mod 10)])"

definition format_d :: "int \<Rightarrow> string" where
  "format_d i = (if i < 0 then ''-'' @ format_nat (nat (- i)) else format_nat (nat i))"

abbreviation dq :: string where
  "dq \<equiv> [CHR 0x22]"

subsection \<open>Values, columns and fragments\<close>

text \<open>
  A value bound as a statement argument (\<^verbatim>\<open>interface{}\<close> in the source). The compiler
  inspects it with \<^verbatim>\<open>reflect\<close> only for its length and its elements.
\<close>

datatype val = VNil | VBool bool | VInt int | VStr string | VSeq "val list"

datatype panic =
    ErrInvalidSearchTree
  | IndexOutOfRange
  | NilDereference
  | ReflectPanic

text \<open>
  \<^verbatim>\<open>reflect.Value.Len\<close> and \<^verbatim>\<open>reflect.Value.Index\<close>: defined on slices and on strings
  (whose elements are bytes), a panic on every other kind and on an index out of range.
\<close>

fun reflect_Len :: "val \<Rightarrow> panic + nat" where
  "reflect_Len (VSeq xs) = Inr (length xs)"
| "reflect_Len (VStr s) = Inr (length s)"
| "reflect_Len _ = Inl ReflectPanic"

fun reflect_Index :: "val \<Rightarrow> nat \<Rightarrow> panic + val" where
  "reflect_Index (VSeq xs) i = (if i < length xs then Inr (xs ! i) else Inl ReflectPanic)"
| "reflect_Index (VStr s) i =
     (if i < length s then Inr (VInt (int (of_char (s ! i) :: nat))) else Inl ReflectPanic)"
| "reflect_Index _ i = Inl ReflectPanic"

text \<open>
  A \<^verbatim>\<open>reflect.Value\<close>, as \<^verbatim>\<open>ColumnValue.Value()\<close> returns it: the zero Value, which
  holds nothing (what \<^verbatim>\<open>reflect.ValueOf(nil)\<close> is), a Value read from an unexported
  field, or the Value of a value. \<^verbatim>\<open>Interface()\<close> panics on the first two and returns
  the value of the third. \<open>ReflectPanic\<close> stands for every panic raised by the package
  \<^verbatim>\<open>reflect\<close>.
\<close>

datatype reflect_Value = ZeroValue | Unexported val | ValueOf val

fun Interface :: "reflect_Value \<Rightarrow> panic + val" where
  "Interface ZeroValue = Inl ReflectPanic"
| "Interface (Unexported v) = Inl ReflectPanic"
| "Interface (ValueOf v) = Inr v"

fun CanInterface :: "reflect_Value \<Rightarrow> bool" where
  "CanInterface ZeroValue = False"
| "CanInterface (Unexported v) = False"
| "CanInterface (ValueOf v) = True"

text \<open>
  The interfaces \<^verbatim>\<open>Column\<close>, \<^verbatim>\<open>ColumnValue\<close> and \<^verbatim>\<open>Field\<close>: each embeds \<^verbatim>\<open>Column\<close>, so
  the records extend one another and share the selector \<open>Column\<close>.
\<close>

record Column =
  Column :: string

record ColumnValue = Column +
  Value :: reflect_Value

record Field = Column +
  SqlType :: string
  AutoIncrement :: bool
  Attrs :: "(string \<times> string) list"

text \<open>
  Modelled from the spec: the fragment type \<^verbatim>\<open>ExecValue\<close> (here \<^verbatim>\<open>QToSExec\<close> around
  \<^verbatim>\<open>DefaultExec\<close>) is declared outside the dialect file. A fragment is SQL text with its
  positional arguments; \<open>QToSExec\<close> is the empty fragment \<^verbatim>\<open>QToSExec{}\<close> and
  \<open>DefaultExec q a\<close> the literal \<^verbatim>\<open>QToSExec{DefaultExec{q, a}}\<close>; \<open>Append\<close> returns a new
  fragment with the text and the arguments added at the end; \<open>Source\<close> and \<open>Args\<close> read
  the two parts.
\<close>

record ExecValue =
  query :: string
  args :: "val list"

definition QToSExec :: ExecValue where
  "QToSExec = \<lparr>query = [], args = []\<rparr>"

definition DefaultExec :: "string \<Rightarrow> val list \<Rightarrow> ExecValue" where
  "DefaultExec q a = \<lparr>query = q, args = a\<rparr>"

definition Append :: "ExecValue \<Rightarrow> string \<Rightarrow> val list \<Rightarrow> ExecValue" where
  "Append e q a = \<lparr>query = query e @ q, args = args e @ a\<rparr>"

definition Source :: "ExecValue \<Rightarrow> string" where
  "Source e = query e"

definition Args :: "ExecValue \<Rightarrow> val list" where
  "Args e = args e"

subsection \<open>Search lists\<close>

datatype ExprType =
    ExprIgnore | ExprAnd | ExprOr | ExprNot
  | ExprEqual | ExprNotEqual | ExprGreater | ExprGreaterEqual | ExprLess | ExprLessEqual
  | ExprBetween | ExprNotBetween | ExprIn | ExprNotIn | ExprLike | ExprNotLike
  | ExprNull | ExprNotNull

text \<open>
  A node of the search list. \<open>Val\<close> is an interface value of the source and may be nil
  (it is nil on the combinator nodes).
\<close>

record ExprNode =
  Type :: ExprType
  Val :: "ColumnValue option"

type_synonym SearchList = "ExprNode list"

subsection \<open>The expression compiler \<^verbatim>\<open>SearchExec\<close>\<close>

text \<open>The loop that copies the elements of the operand of \<^verbatim>\<open>IN\<close> into the arguments.\<close>

function index_loop :: "val \<Rightarrow> nat \<Rightarrow> nat \<Rightarrow> val list \<Rightarrow> panic + val list" where
  "index_loop vv i n as =
     (if i < n then
        (case reflect_Index vv i of
           Inl e \<Rightarrow> Inl e
         | Inr x \<Rightarrow> index_loop vv (Suc i) n (as @ [x]))
      else Inr as)"
  by pat_completeness auto
termination
  by (relation "measure (\<lambda>(vv, i, n, as). n - i)") auto

declare index_loop.simps [simp del]

text \<open>
  The leaves with one placeholder: \<^verbatim>\<open>"%s <op> ?"\<close> and the operand's value. Every leaf
  that binds a value reads it through \<^verbatim>\<open>Val.Value().Interface()\<close>.
\<close>

definition compare_leaf :: "ExprNode \<Rightarrow> string \<Rightarrow> panic + ExecValue" where
  "compare_leaf n op =
     (case Val n of
        None \<Rightarrow> Inl NilDereference
      | Some cv \<Rightarrow>
          (case Interface (Value cv) of
             Inl e \<Rightarrow> Inl e
           | Inr v \<Rightarrow> Inr (Append QToSExec (Column cv @ op) [v])))"

definition between_leaf :: "ExprNode \<Rightarrow> string \<Rightarrow> panic + ExecValue" where
  "between_leaf n op =
     (case Val n of
        None \<Rightarrow> Inl NilDereference
      | Some cv \<Rightarrow>
          (case Interface (Value cv) of
             Inl e \<Rightarrow> Inl e
           | Inr vv \<Rightarrow>
               (case reflect_Index vv 0 of
                  Inl e \<Rightarrow> Inl e
                | Inr lo \<Rightarrow>
                    (case reflect_Index vv 1 of
                       Inl e \<Rightarrow> Inl e
                     | Inr hi \<Rightarrow> Inr (Append QToSExec (Column cv @ op) [lo, hi])))))"

definition in_leaf :: "ExprNode \<Rightarrow> string \<Rightarrow> panic + ExecValue" where
  "in_leaf n op =
     (case Val n of
        None \<Rightarrow> Inl NilDereference
      | Some cv \<Rightarrow>
          (case Interface (Value cv) of
             Inl e \<Rightarrow> Inl e
           | Inr vv \<Rightarrow>
               (case reflect_Len vv of
                  Inl e \<Rightarrow> Inl e
                | Inr len \<Rightarrow>
                    (let questionMarks = TrimSuffix (Repeat ''?,'' len) '','' in
                     case index_loop vv 0 len [] of
                       Inl e \<Rightarrow> Inl e
                     | Inr as \<Rightarrow>
                         Inr (Append QToSExec
                                (Column cv @ op @ ''('' @ questionMarks @ '')'') as)))))"

definition null_leaf :: "ExprNode \<Rightarrow> string \<Rightarrow> panic + ExecValue" where
  "null_leaf n op =
     (case Val n of
        None \<Rightarrow> Inl NilDereference
      | Some cv \<Rightarrow> Inr (Append QToSExec (Column cv @ op) []))"

text \<open>
  The body of the loop: the \<^verbatim>\<open>switch\<close> on the node's type, then the push of its
  fragment. \<^verbatim>\<open>ExprIgnore\<close> continues with the stack as it is. The top of the stack is
  the last element, as in the slice of the source.
\<close>

definition search_step :: "ExprNode \<Rightarrow> ExecValue list \<Rightarrow> panic + ExecValue list" where
  "search_step n stack =
     (case Type n of
        ExprAnd \<Rightarrow>
          (if length stack < 2 then Inl ErrInvalidSearchTree
           else
             (let last1 = stack ! (length stack - 1); last2 = stack ! (length stack - 2);
                  stack' = take (length stack - 2) stack
              in Inr (stack' @
                   [Append QToSExec (Source last2 @ '' AND '' @ Source last1)
                      (([] @ Args last2) @ Args last1)])))
      | ExprOr \<Rightarrow>
          (if length stack < 2 then Inl ErrInvalidSearchTree
           else
             (let last1 = stack ! (length stack - 1); last2 = stack ! (length stack - 2);
                  stack' = take (length stack - 2) stack
              in Inr (stack' @
                   [Append QToSExec (''('' @ Source last2 @ '' OR '' @ Source last1 @ '')'')
                      (([] @ Args last2) @ Args last1)])))
      | ExprNot \<Rightarrow>
          (if length stack < 1 then Inl ErrInvalidSearchTree
           else
             (let last = stack ! (length stack - 1);
                  stack' = take (length stack - 1) stack
              in Inr (stack' @ [Append QToSExec (''NOT('' @ Source last @ '')'') (Args last)])))
      | ExprIgnore \<Rightarrow> Inr stack
      | ExprEqual \<Rightarrow> map_sum id (\<lambda>exec. stack @ [exec]) (compare_leaf n '' = ?'')
      | ExprNotEqual \<Rightarrow> map_sum id (\<lambda>exec. stack @ [exec]) (compare_leaf n '' <> ?'')
      | ExprGreater \<Rightarrow> map_sum id (\<lambda>exec. stack @ [exec]) (compare_leaf n '' > ?'')
      | ExprGreaterEqual \<Rightarrow> map_sum id (\<lambda>exec. stack @ [exec]) (compare_leaf n '' >= ?'')
      | ExprLess \<Rightarrow> map_sum id (\<lambda>exec. stack @ [exec]) (compare_leaf n '' < ?'')
      | ExprLessEqual \<Rightarrow> map_sum id (\<lambda>exec. stack @ [exec]) (compare_leaf n '' <= ?'')
      | ExprBetween \<Rightarrow>
          map_sum id (\<lambda>exec. stack @ [exec]) (between_leaf n '' BETWEEN ? AND ?'')
      | ExprNotBetween \<Rightarrow>
          map_sum id (\<lambda>exec. stack @ [exec]) (between_leaf n '' NOT BETWEEN ? AND ?'')
      | ExprIn \<Rightarrow> map_sum id (\<lambda>exec. stack @ [exec]) (in_leaf n '' IN '')
      | ExprNotIn \<Rightarrow> map_sum id (\<lambda>exec. stack @ [exec]) (in_leaf n '' NOT IN '')
      | ExprLike \<Rightarrow> map_sum id (\<lambda>exec. stack @ [exec]) (compare_leaf n '' LIKE ?'')
      | ExprNotLike \<Rightarrow> map_sum id (\<lambda>exec. stack @ [exec]) (compare_leaf n '' NOT LIKE ?'')
      | ExprNull \<Rightarrow> map_sum id (\<lambda>exec. stack @ [exec]) (null_leaf n '' IS NULL'')
      | ExprNotNull \<Rightarrow> map_sum id (\<lambda>exec. stack @ [exec]) (null_leaf n '' IS NOT NULL''))"

text \<open>The \<^verbatim>\<open>for\<close> loop over the nodes; a panic ends it.\<close>

fun search_loop :: "SearchList \<Rightarrow> ExecValue list \<Rightarrow> panic + ExecValue list" where
  "search_loop [] stack = Inr stack"
| "search_loop (n # ns) stack =
     (case search_step n stack of
        Inl e \<Rightarrow> Inl e
      | Inr stack' \<Rightarrow> search_loop ns stack')"

text \<open>\<^verbatim>\<open>return stack[0]\<close>: an index panic of the runtime on an empty stack.\<close>

definition SearchExec :: "SearchList \<Rightarrow> panic + ExecValue" where
  "SearchExec s =
     (case search_loop s [] of
        Inl e \<Rightarrow> Inl e
      | Inr stack \<Rightarrow> (if stack = [] then Inl IndexOutOfRange else Inr (stack ! 0)))"

subsection \<open>Models\<close>

text \<open>
  Modelled from the spec: the model provider is declared outside the dialect file; the
  dialect only calls its read accessors, which are the fields of this record. The maps
  of the source (\<^verbatim>\<open>Attrs\<close>, the index maps, the foreign keys) are lists of pairs in the
  order in which \<^verbatim>\<open>range\<close> visits them. \<open>GetFieldWithName\<close> returns an interface
  value, nil (\<open>None\<close>) for an unknown name.
\<close>

record Model =
  Name :: string
  GetSqlFields :: "Field list"
  GetPrimary :: "Field list"
  GetFieldWithName :: "string \<Rightarrow> Field option"
  GetIndexMap :: "(string \<times> Field list) list"
  GetUniqueIndexMap :: "(string \<times> Field list) list"

record ForeignKey =
  FKModel :: Model
  FKField :: Field

subsection \<open>\<^verbatim>\<open>ConditionExec\<close>\<close>

definition ConditionExec ::
  "SearchList \<Rightarrow> 64 word \<Rightarrow> 64 word \<Rightarrow> 'a Column_scheme list \<Rightarrow> 'b Column_scheme list
     \<Rightarrow> panic + ExecValue" where
  "ConditionExec search limit offset orderBy groupBy =
     (case (if length search > 0
            then (case SearchExec search of
                    Inl e \<Rightarrow> Inl e
                  | Inr searchExec \<Rightarrow>
                      Inr (Append QToSExec ('' WHERE '' @ Source searchExec) (Args searchExec)))
            else Inr QToSExec) of
        Inl e \<Rightarrow> Inl e
      | Inr exec1 \<Rightarrow>
          (let exec2 = (if limit \<noteq> 0
                        then Append exec1 ('' LIMIT '' @ format_d (sint limit)) []
                        else exec1);
               exec3 = (if offset \<noteq> 0
                        then Append exec2 ('' OFFSET '' @ format_d (sint offset)) []
                        else exec2);
               exec4 = (if length orderBy > 0
                        then Append exec3
                               ('' ORDER BY '' @
                                  Join (foldl (\<lambda>list column. list @ [Column column]) [] orderBy)
                                    '','') []
                        else exec3);
               exec5 = (if length groupBy > 0
                        then Append exec4
                               ('' GROUP BY '' @
                                  Join (foldl (\<lambda>list column. list @ [Column column]) [] groupBy)
                                    '','') []
                        else exec4)
           in Inr exec5))"

subsection \<open>\<^verbatim>\<open>CreateTable\<close>\<close>

text \<open>The definition of one column, with its attributes.\<close>

definition field_def :: "Field \<Rightarrow> string" where
  "field_def sqlField =
     (let s = (if AutoIncrement sqlField
               then Column sqlField @ '' SERIAL''
               else Column sqlField @ '' '' @ SqlType sqlField)
      in foldl (\<lambda>s (k, v). if v = [] then s @ '' '' @ k else s @ '' '' @ (k @ ''='' @ v))
           s (Attrs sqlField))"

text \<open>The loop over the foreign keys; \<^verbatim>\<open>f.Column()\<close> panics on a nil field.\<close>

fun foreign_loop ::
  "Model \<Rightarrow> (string \<times> ForeignKey) list \<Rightarrow> string list \<Rightarrow> panic + string list" where
  "foreign_loop model [] strList = Inr strList"
| "foreign_loop model ((name, key) # rest) strList =
     (case GetFieldWithName model name of
        None \<Rightarrow> Inl NilDereference
      | Some f \<Rightarrow>
          foreign_loop model rest
            (strList @
               [''FOREIGN KEY ('' @ Column f @ '') REFERENCES '' @ dq @ Name (FKModel key) @ dq @
                  ''('' @ Column (FKField key) @ '')'']))"

definition index_str :: "string \<Rightarrow> Model \<Rightarrow> string \<times> Field list \<Rightarrow> string" where
  "index_str create model entry =
     (case entry of (key, fieldList) \<Rightarrow>
        (let fieldStrList = foldl (\<lambda>l f. l @ [Column f]) [] fieldList
         in create @ key @ '' ON '' @ dq @ Name model @ dq @ ''('' @
              Join fieldStrList '','' @ '')''))"

definition CreateTable ::
  "Model \<Rightarrow> (string \<times> ForeignKey) list \<Rightarrow> panic + ExecValue list" where
  "CreateTable model foreign =
     (let strList = foldl (\<lambda>l sqlField. l @ [field_def sqlField]) [] (GetSqlFields model);
          primaryStrList = foldl (\<lambda>l p. l @ [Column p]) [] (GetPrimary model);
          strList = strList @ [''PRIMARY KEY('' @ Join primaryStrList '','' @ '')'']
      in case foreign_loop model foreign strList of
           Inl e \<Rightarrow> Inl e
         | Inr strList \<Rightarrow>
             (let sqlStr = ''CREATE TABLE '' @ dq @ Name model @ dq @ '' ('' @
                             Join strList '','' @ '')'';
                  execlist = [] @ [DefaultExec sqlStr []];
                  indexStrList =
                    foldl (\<lambda>l entry. l @ [index_str ''CREATE INDEX '' model entry]) []
                      (GetIndexMap model);
                  uniqueIndexStrList =
                    foldl (\<lambda>l entry. l @ [index_str ''CREATE UNIQUE INDEX '' model entry]) []
                      (GetUniqueIndexMap model);
                  execlist = foldl (\<lambda>l indexStr. l @ [DefaultExec indexStr []]) execlist
                               indexStrList;
                  execlist = foldl (\<lambda>l indexStr. l @ [DefaultExec indexStr []]) execlist
                               uniqueIndexStrList
              in Inr execlist))"

subsection \<open>\<^verbatim>\<open>InsertExec\<close> and \<^verbatim>\<open>ReplaceExec\<close>\<close>

text \<open>
  The loop of \<^verbatim>\<open>insertExec\<close> over the column values; \<^verbatim>\<open>r.Value().Interface()\<close> panics
  on a Value that \<^verbatim>\<open>Interface()\<close> refuses.
\<close>

fun insert_loop ::
  "ColumnValue list \<Rightarrow> string list \<Rightarrow> string list \<Rightarrow> val list
     \<Rightarrow> panic + (string list \<times> string list \<times> val list)" where
  "insert_loop [] columnList qList as = Inr (columnList, qList, as)"
| "insert_loop (r # rs) columnList qList as =
     (case Interface (Value r) of
        Inl e \<Rightarrow> Inl e
      | Inr v \<Rightarrow> insert_loop rs (columnList @ [Column r]) (qList @ [''?'']) (as @ [v]))"

definition insertExec :: "Model \<Rightarrow> ColumnValue list \<Rightarrow> panic + ExecValue" where
  "insertExec model columnValues =
     (case insert_loop columnValues [] [] [] of
        Inl e \<Rightarrow> Inl e
      | Inr (columnList, qList, as) \<Rightarrow>
          (let fieldStr = [] @ Join columnList '','';
               qStr = [] @ Join qList '',''
           in Inr (Append QToSExec
                (''INSERT INTO '' @ dq @ Name model @ dq @ ''('' @ fieldStr @ '') VALUES('' @
                   qStr @ '')'') as)))"

text \<open>
  \<^verbatim>\<open>GetOnePrimary\<close> is read only behind the test that there is exactly one primary
  field, so the two are one pattern here.
\<close>

definition InsertExec :: "Model \<Rightarrow> ColumnValue list \<Rightarrow> panic + ExecValue" where
  "InsertExec model columnValues =
     (case insertExec model columnValues of
        Inl e \<Rightarrow> Inl e
      | Inr exec \<Rightarrow>
          (case GetPrimary model of
             [p] \<Rightarrow>
               (if AutoIncrement p then Inr (Append exec ('' RETURNING '' @ Column p) [])
                else Inr exec)
           | _ \<Rightarrow> Inr exec))"

definition ReplaceExec :: "Model \<Rightarrow> ColumnValue list \<Rightarrow> panic + ExecValue" where
  "ReplaceExec model columnValues =
     (case insertExec model columnValues of
        Inl e \<Rightarrow> Inl e
      | Inr exec \<Rightarrow>
          (let primaryKeys = GetPrimary model;
               primaryKeyNames = foldl (\<lambda>l key. l @ [Column key]) [] primaryKeys;
               recordList = foldl (\<lambda>l r. l @ [Column r @ '' = Excluded.'' @ Column r]) []
                              columnValues
           in Inr (Append exec
                ('' ON CONFLICT('' @ Join primaryKeyNames '','' @ '') DO UPDATE SET '' @
                   Join recordList '','') [])))"

subsection \<open>\<^verbatim>\<open>InsertExecutor\<close>\<close>

datatype go_error = ErrNoRows | ErrNotSupportRowsAffected | OtherError string

record RawResult =
  ID :: "64 word"
  Err :: "go_error option"

definition LastInsertId :: "RawResult \<Rightarrow> 64 word \<times> go_error option" where
  "LastInsertId t = (ID t, Err t)"

definition RowsAffected :: "RawResult \<Rightarrow> 64 word \<times> go_error option" where
  "RowsAffected t = (0, Some ErrNotSupportRowsAffected)"

text \<open>
  The executor \<open>db\<close> stands for \<^verbatim>\<open>db.QueryRow(query, args...).Scan(&result.ID)\<close>: the
  value it wrote to the destination, if any, and the error it returned. \<open>Query\<close> and
  \<open>JsonArgs\<close> are the methods of the fragment's type, declared outside the dialect file.
  The result is what the function returns, with the one call of the debug printer.
\<close>

definition InsertExecutor ::
  "(string \<Rightarrow> val list \<Rightarrow> 64 word option \<times> go_error option) \<Rightarrow> (ExecValue \<Rightarrow> string)
     \<Rightarrow> (ExecValue \<Rightarrow> string) \<Rightarrow> ExecValue
     \<Rightarrow> RawResult \<times> go_error option \<times> (string \<times> string \<times> go_error option)" where
  "InsertExecutor db Query JsonArgs exec =
     (let result = \<lparr>ID = 0, Err = None\<rparr>;
          query = Query exec
      in case db query (Args exec) of
           (written, scanErr) \<Rightarrow>
             (let result = (case written of None \<Rightarrow> result | Some v \<Rightarrow> result\<lparr>ID := v\<rparr>);
                  (result, err) = (if scanErr = Some ErrNoRows
                                   then (result\<lparr>Err := scanErr\<rparr>, None)
                                   else (result, scanErr))
              in (result, err, (query, JsonArgs exec, err))))"

subsection \<open>The well-formedness of a search list, as the specification words it\<close>




section \<open>Properties\<close>

subsection \<open>Auxiliary facts about the library functions and the loops\<close>

lemma Repeat_comma: "Repeat ''?,'' (Suc n) = Join (replicate (Suc n) ''?'') '','' @ '',''"
  by (induction n) simp_all

lemma TrimSuffix_snoc: "TrimSuffix (s @ suf) suf = s"
  by (simp add: TrimSuffix_def HasSuffix_def)

lemma questionMarks_Join:
  assumes "0 < n"
  shows "TrimSuffix (Repeat ''?,'' n) '','' = Join (replicate n ''?'') '',''"
proof -
  from assms obtain m where n: "n = Suc m" by (cases n) auto
  show ?thesis unfolding n by (simp only: Repeat_comma TrimSuffix_snoc)
qed

lemma questionMarks_zero: "TrimSuffix (Repeat ''?,'' 0) '','' = []"
  by (simp add: TrimSuffix_def HasSuffix_def)

lemma index_loop_VSeq:
  "i \<le> length xs \<Longrightarrow> index_loop (VSeq xs) i (length xs) as = Inr (as @ drop i xs)"
proof (induction "length xs - i" arbitrary: i as)
  case 0
  then show ?case by (simp add: index_loop.simps)
next
  case (Suc k)
  then have lt: "i < length xs" by simp
  have "index_loop (VSeq xs) i (length xs) as =
        index_loop (VSeq xs) (Suc i) (length xs) (as @ [xs ! i])"
    using lt by (subst index_loop.simps) simp
  also have "\<dots> = Inr ((as @ [xs ! i]) @ drop (Suc i) xs)"
    using Suc lt by (intro Suc.hyps) auto
  finally show ?case using lt by (simp add: Cons_nth_drop_Suc)
qed



lemma index_loop_zero: "index_loop vv 0 0 [] = Inr []"
  by (simp add: index_loop.simps)

subsection \<open>One step of the compiler\<close>

lemma step_And:
  "search_step \<lparr>Type = ExprAnd, Val = v\<rparr> (stack @ [l, r]) =
     Inr (stack @ [\<lparr>query = query l @ '' AND '' @ query r, args = args l @ args r\<rparr>])"
  by (simp add: search_step_def Append_def QToSExec_def Source_def Args_def nth_append)

lemma step_Or:
  "search_step \<lparr>Type = ExprOr, Val = v\<rparr> (stack @ [l, r]) =
     Inr (stack @
       [\<lparr>query = ''('' @ query l @ '' OR '' @ query r @ '')'', args = args l @ args r\<rparr>])"
  by (simp add: search_step_def Append_def QToSExec_def Source_def Args_def nth_append)

lemma step_compare:
  "search_step \<lparr>Type = ExprEqual, Val = Some \<lparr>Column = c, Value = ValueOf v\<rparr>\<rparr> stack =
     Inr (stack @ [\<lparr>query = c @ '' = ?'', args = [v]\<rparr>])"
  by (simp add: search_step_def compare_leaf_def Append_def QToSExec_def)

lemma step_compare_refused:
  "\<not> CanInterface x \<Longrightarrow>
   search_step \<lparr>Type = ExprEqual, Val = Some \<lparr>Column = c, Value = x\<rparr>\<rparr> stack = Inl ReflectPanic"
  by (cases x) (simp_all add: search_step_def compare_leaf_def)

lemma in_leaf_VSeq:
  assumes "Val n = Some cv" and "Value cv = ValueOf (VSeq xs)"
  shows "in_leaf n op =
     Inr \<lparr>query = Column cv @ op @ ''('' @ TrimSuffix (Repeat ''?,'' (length xs)) '','' @ '')'',
          args = xs\<rparr>"
  using assms index_loop_VSeq[of 0 xs "[]"]
  by (simp add: in_leaf_def Append_def QToSExec_def)










subsection \<open>The expression compiler\<close>




text \<open>
  Claim C2. With the fragments \<open>l\<close> and \<open>r\<close> on top of the stack (\<open>r\<close> the top), an
  \<^verbatim>\<open>And\<close> node replaces them by \<open>l AND r\<close> without parentheses and an \<^verbatim>\<open>Or\<close> node by
  \<open>(l OR r)\<close> in parentheses; the arguments are those of \<open>l\<close> followed by those of \<open>r\<close>.
  So the postfix list of \<open>A And (B Or C)\<close> compiles to \<open>a AND (b OR c)\<close> with the
  arguments of \<open>A\<close>, \<open>B\<close> and \<open>C\<close> in this order.
\<close>

theorem And_Or_render:
  assumes "search_step A [] = Inr [a]"
    and "search_step B [a] = Inr [a, b]"
    and "search_step C [a, b] = Inr [a, b, c]"
  shows "search_step \<lparr>Type = ExprAnd, Val = v\<rparr> (stack @ [l, r]) =
           Inr (stack @ [\<lparr>query = query l @ '' AND '' @ query r, args = args l @ args r\<rparr>])
       \<and> search_step \<lparr>Type = ExprOr, Val = v\<rparr> (stack @ [l, r]) =
           Inr (stack @
             [\<lparr>query = ''('' @ query l @ '' OR '' @ query r @ '')'', args = args l @ args r\<rparr>])
       \<and> SearchExec [A, B, C, \<lparr>Type = ExprOr, Val = None\<rparr>, \<lparr>Type = ExprAnd, Val = None\<rparr>] =
           Inr \<lparr>query = query a @ '' AND ('' @ query b @ '' OR '' @ query c @ '')'',
                args = args a @ args b @ args c\<rparr>"
proof -
  have "search_step \<lparr>Type = ExprOr, Val = None\<rparr> [a, b, c] =
          Inr [a, \<lparr>query = ''('' @ query b @ '' OR '' @ query c @ '')'', args = args b @ args c\<rparr>]"
    using step_Or[of None "[a]" b c] by simp
  moreover have "search_step \<lparr>Type = ExprAnd, Val = None\<rparr>
          [a, \<lparr>query = ''('' @ query b @ '' OR '' @ query c @ '')'', args = args b @ args c\<rparr>] =
          Inr [\<lparr>query = query a @ '' AND ('' @ query b @ '' OR '' @ query c @ '')'',
                args = args a @ args b @ args c\<rparr>]"
    using step_And[of None "[]" a
        "\<lparr>query = ''('' @ query b @ '' OR '' @ query c @ '')'', args = args b @ args c\<rparr>"]
    by simp
  ultimately have "SearchExec
        [A, B, C, \<lparr>Type = ExprOr, Val = None\<rparr>, \<lparr>Type = ExprAnd, Val = None\<rparr>] =
           Inr \<lparr>query = query a @ '' AND ('' @ query b @ '' OR '' @ query c @ '')'',
                args = args a @ args b @ args c\<rparr>"
    using assms by (simp add: SearchExec_def)
  then show ?thesis using step_And step_Or by blast
qed

theorem And_Or_render_witness:
  "SearchExec [\<lparr>Type = ExprEqual, Val = Some \<lparr>Column = ''a'', Value = ValueOf (VInt 1)\<rparr>\<rparr>,
               \<lparr>Type = ExprEqual, Val = Some \<lparr>Column = ''b'', Value = ValueOf (VInt 2)\<rparr>\<rparr>,
               \<lparr>Type = ExprEqual, Val = Some \<lparr>Column = ''c'', Value = ValueOf (VInt 3)\<rparr>\<rparr>,
               \<lparr>Type = ExprOr, Val = None\<rparr>, \<lparr>Type = ExprAnd, Val = None\<rparr>] =
     Inr \<lparr>query = ''a = ? AND (b = ? OR c = ?)'', args = [VInt 1, VInt 2, VInt 3]\<rparr>"
proof -
  let ?a = "\<lparr>query = ''a = ?'', args = [VInt 1]\<rparr>"
  let ?b = "\<lparr>query = ''b = ?'', args = [VInt 2]\<rparr>"
  let ?c = "\<lparr>query = ''c = ?'', args = [VInt 3]\<rparr>"
  have A: "search_step \<lparr>Type = ExprEqual, Val = Some \<lparr>Column = ''a'', Value = ValueOf (VInt 1)\<rparr>\<rparr> [] =
             Inr [?a]"
    by (simp add: step_compare)
  have B: "search_step \<lparr>Type = ExprEqual, Val = Some \<lparr>Column = ''b'', Value = ValueOf (VInt 2)\<rparr>\<rparr> [?a] =
             Inr [?a, ?b]"
    by (simp add: step_compare)
  have C: "search_step \<lparr>Type = ExprEqual, Val = Some \<lparr>Column = ''c'', Value = ValueOf (VInt 3)\<rparr>\<rparr>
             [?a, ?b] = Inr [?a, ?b, ?c]"
    by (simp add: step_compare)
  from And_Or_render[OF A B C] show ?thesis by simp
qed

text \<open>
  Claim C3. An \<^verbatim>\<open>In\<close> or \<^verbatim>\<open>NotIn\<close> leaf whose operand is a sequence of \<open>N \<ge> 1\<close> elements
  pushes the column followed by \<open>IN\<close> (or \<open>NOT IN\<close>) and \<open>N\<close> placeholders joined by
  commas, with the elements of the sequence, in their order, as the arguments.
\<close>

theorem In_placeholders:
  assumes "Val n = Some cv" and "Value cv = ValueOf (VSeq xs)" and "xs \<noteq> []"
  shows "(Type n = ExprIn \<longrightarrow>
            search_step n stack =
              Inr (stack @
                [\<lparr>query = Column cv @ '' IN ('' @ Join (replicate (length xs) ''?'') '','' @ '')'',
                  args = xs\<rparr>]))
       \<and> (Type n = ExprNotIn \<longrightarrow>
            search_step n stack =
              Inr (stack @
                [\<lparr>query = Column cv @ '' NOT IN ('' @ Join (replicate (length xs) ''?'') '','' @
                    '')'',
                  args = xs\<rparr>]))"
proof -
  have "0 < length xs" using assms(3) by simp
  then have "TrimSuffix (Repeat ''?,'' (length xs)) '','' = Join (replicate (length xs) ''?'') '',''"
    by (rule questionMarks_Join)
  then show ?thesis
    using in_leaf_VSeq[OF assms(1,2)] by (simp add: search_step_def)
qed

theorem In_placeholders_witness:
  "SearchExec [\<lparr>Type = ExprIn,
                 Val = Some \<lparr>Column = ''col'', Value = ValueOf (VSeq [VInt 1, VInt 2, VInt 3])\<rparr>\<rparr>] =
     Inr \<lparr>query = ''col IN (?,?,?)'', args = [VInt 1, VInt 2, VInt 3]\<rparr>"
  using In_placeholders[of
      "\<lparr>Type = ExprIn, Val = Some \<lparr>Column = ''col'', Value = ValueOf (VSeq [VInt 1, VInt 2, VInt 3])\<rparr>\<rparr>"
      "\<lparr>Column = ''col'', Value = ValueOf (VSeq [VInt 1, VInt 2, VInt 3])\<rparr>"
      "[VInt 1, VInt 2, VInt 3]" "[]"]
  by (simp add: SearchExec_def numeral_3_eq_3)

text \<open>
  Claim C4, as amended. An \<^verbatim>\<open>In\<close> or \<^verbatim>\<open>NotIn\<close> leaf whose operand is a sequence of length
  zero is not rejected by the compiler: it pushes the column followed by \<open>IN ()\<close> (or
  \<open>NOT IN ()\<close>) with no arguments.
\<close>

theorem In_empty_sequence:
  assumes "Val n = Some cv" and "Value cv = ValueOf (VSeq [])"
  shows "(Type n = ExprIn \<longrightarrow>
            search_step n stack = Inr (stack @ [\<lparr>query = Column cv @ '' IN ()'', args = []\<rparr>]))
       \<and> (Type n = ExprNotIn \<longrightarrow>
            search_step n stack =
              Inr (stack @ [\<lparr>query = Column cv @ '' NOT IN ()'', args = []\<rparr>]))"
  using in_leaf_VSeq[OF assms] questionMarks_zero by (simp add: search_step_def)

theorem In_empty_sequence_witness:
  "search_step \<lparr>Type = ExprNotIn, Val = Some \<lparr>Column = ''col'', Value = ValueOf (VSeq [])\<rparr>\<rparr> [] =
     Inr [\<lparr>query = ''col NOT IN ()'', args = []\<rparr>]"
  using In_empty_sequence[of
      "\<lparr>Type = ExprNotIn, Val = Some \<lparr>Column = ''col'', Value = ValueOf (VSeq [])\<rparr>\<rparr>"
      "\<lparr>Column = ''col'', Value = ValueOf (VSeq [])\<rparr>" "[]"]
  by simp

text \<open>
  Claim C4 as stated fails: for the empty sequence the compiler returns the text
  \<open>col IN ()\<close>.
\<close>

theorem In_empty_sequence_counterexample:
  "SearchExec [\<lparr>Type = ExprIn, Val = Some \<lparr>Column = ''col'', Value = ValueOf (VSeq [])\<rparr>\<rparr>] =
     Inr \<lparr>query = ''col IN ()'', args = []\<rparr>"
  by (simp add: SearchExec_def search_step_def in_leaf_def index_loop_zero TrimSuffix_def
        HasSuffix_def Append_def QToSExec_def)

subsection \<open>Auxiliary facts about the statement builders\<close>

lemma foldl_snoc_map: "foldl (\<lambda>l x. l @ [f x]) a xs = a @ map f xs"
  by (induction xs arbitrary: a) simp_all

lemma insert_loop_valid:
  "map Value cvs = map ValueOf vs \<Longrightarrow>
   insert_loop cvs cl ql al =
     Inr (cl @ map Column cvs, ql @ replicate (length cvs) ''?'', al @ vs)"
proof (induction cvs arbitrary: vs cl ql al)
  case Nil
  then show ?case by simp
next
  case (Cons r rs)
  then obtain v vs' where vs: "vs = v # vs'" and r: "Value r = ValueOf v"
    and rs: "map Value rs = map ValueOf vs'"
    by (cases vs) auto
  show ?case using Cons.IH[OF rs] by (simp add: vs r replicate_app_Cons_same)
qed

lemma insert_loop_refused:
  "\<not> list_all (\<lambda>r. CanInterface (Value r)) cvs \<Longrightarrow>
   insert_loop cvs cl ql al = Inl ReflectPanic"
proof (induction cvs arbitrary: cl ql al)
  case Nil
  then show ?case by simp
next
  case (Cons r rs)
  show ?case
  proof (cases "Value r")
    case (ValueOf v)
    then have "\<not> list_all (\<lambda>r. CanInterface (Value r)) rs" using Cons.prems by simp
    from Cons.IH[OF this] show ?thesis by (simp add: ValueOf)
  qed simp_all
qed

lemma insertExec_closed:
  "map Value cvs = map ValueOf vs \<Longrightarrow>
   insertExec m cvs =
     Inr \<lparr>query = ''INSERT INTO '' @ dq @ Name m @ dq @ ''('' @ Join (map Column cvs) '','' @
            '') VALUES('' @ Join (replicate (length cvs) ''?'') '','' @ '')'',
          args = vs\<rparr>"
  using insert_loop_valid[of cvs vs "[]" "[]" "[]"]
  by (simp add: insertExec_def Append_def QToSExec_def)

lemma insertExec_refused:
  "\<not> list_all (\<lambda>r. CanInterface (Value r)) cvs \<Longrightarrow> insertExec m cvs = Inl ReflectPanic"
  using insert_loop_refused[of cvs "[]" "[]" "[]"] by (simp add: insertExec_def)

lemma foreign_loop_closed:
  assumes "\<forall>(name, key) \<in> set foreign. GetFieldWithName m name \<noteq> None"
  shows "foreign_loop m foreign strList =
     Inr (strList @
       map (\<lambda>(name, key).
              ''FOREIGN KEY ('' @ Column (the (GetFieldWithName m name)) @ '') REFERENCES '' @ dq @
                Name (FKModel key) @ dq @ ''('' @ Column (FKField key) @ '')'') foreign)"
  using assms
proof (induction foreign arbitrary: strList)
  case Nil
  show ?case by simp
next
  case (Cons a rest)
  obtain name key where a: "a = (name, key)" by (cases a)
  with Cons.prems obtain f where f: "GetFieldWithName m name = Some f" by auto
  have "\<forall>(name, key) \<in> set rest. GetFieldWithName m name \<noteq> None"
    using Cons.prems by simp
  from Cons.IH[OF this] show ?case by (simp add: a f)
qed

lemma field_def_closed:
  "field_def f =
     Column f @ (if AutoIncrement f then '' SERIAL'' else '' '' @ SqlType f) @
       concat (map (\<lambda>(k, v). if v = [] then '' '' @ k else '' '' @ k @ ''='' @ v) (Attrs f))"
proof -
  have "foldl (\<lambda>s (k, v). if v = [] then s @ '' '' @ k else s @ '' '' @ (k @ ''='' @ v)) s kvs
        = s @ concat (map (\<lambda>(k, v). if v = [] then '' '' @ k else '' '' @ k @ ''='' @ v) kvs)"
    for s :: string and kvs
    by (induction kvs arbitrary: s) (auto split: prod.splits)
  then show ?thesis by (simp add: field_def_def Let_def)
qed

lemma ConditionExec_closed:
  "ConditionExec search limit offset orderBy groupBy =
     (let tail = (if limit \<noteq> 0 then '' LIMIT '' @ format_d (sint limit) else []) @
                 (if offset \<noteq> 0 then '' OFFSET '' @ format_d (sint offset) else []) @
                 (if orderBy \<noteq> [] then '' ORDER BY '' @ Join (map Column orderBy) '','' else []) @
                 (if groupBy \<noteq> [] then '' GROUP BY '' @ Join (map Column groupBy) '','' else [])
      in if search = [] then Inr \<lparr>query = tail, args = []\<rparr>
         else (case SearchExec search of
                 Inl e \<Rightarrow> Inl e
               | Inr w \<Rightarrow> Inr \<lparr>query = '' WHERE '' @ query w @ tail, args = args w\<rparr>))"
  by (simp add: ConditionExec_def Let_def foldl_snoc_map Append_def QToSExec_def Source_def
        Args_def split: sum.splits)

lemma format_d_10: "format_d 10 = ''10''"
  by code_simp

lemma format_d_5: "format_d 5 = ''5''"
  by code_simp

subsection \<open>\<^verbatim>\<open>ConditionExec\<close>\<close>

text \<open>
  Claim C5, as amended. For a search list with zero nodes \<open>ConditionExec\<close> does not call
  the compiler and emits no \<open>WHERE\<close> clause: its result is the \<open>LIMIT\<close>, \<open>OFFSET\<close>,
  \<open>ORDER BY\<close> and \<open>GROUP BY\<close> clauses of its other inputs, with no arguments.
\<close>

theorem ConditionExec_empty_search:
  "ConditionExec [] limit offset orderBy groupBy =
     Inr \<lparr>query =
            (if limit \<noteq> 0 then '' LIMIT '' @ format_d (sint limit) else []) @
            (if offset \<noteq> 0 then '' OFFSET '' @ format_d (sint offset) else []) @
            (if orderBy \<noteq> [] then '' ORDER BY '' @ Join (map Column orderBy) '','' else []) @
            (if groupBy \<noteq> [] then '' GROUP BY '' @ Join (map Column groupBy) '','' else []),
          args = []\<rparr>"
  by (simp add: ConditionExec_closed Let_def)

theorem ConditionExec_empty_search_witness:
  "ConditionExec [] 0 0 ([] :: Column list) ([] :: Column list) = Inr \<lparr>query = [], args = []\<rparr>
   \<and> ConditionExec [] 10 0 [\<lparr>Column = ''name''\<rparr>] ([] :: Column list) =
       Inr \<lparr>query = '' LIMIT 10 ORDER BY name'', args = []\<rparr>"
  using ConditionExec_empty_search[of 0 0 "[] :: Column list" "[] :: Column list"]
    ConditionExec_empty_search[of 10 0 "[\<lparr>Column = ''name''\<rparr>]" "[] :: Column list"]
  by (simp add: format_d_10)

text \<open>
  Claim C5 as stated fails: on a search list with zero nodes the compiler itself does
  not return the empty fragment, it panics on \<^verbatim>\<open>stack[0]\<close>.
\<close>

theorem SearchExec_empty_counterexample:
  "SearchExec [] = Inl IndexOutOfRange \<and> SearchExec [] \<noteq> Inr \<lparr>query = [], args = []\<rparr>"
  by (simp add: SearchExec_def)

text \<open>
  Claim C6. \<open>ConditionExec\<close> appends the clauses in the order \<open>WHERE\<close>, \<open>LIMIT\<close>,
  \<open>OFFSET\<close>, \<open>ORDER BY\<close>, \<open>GROUP BY\<close>; the \<open>WHERE\<close> clause is there exactly when the
  search list is not empty, \<open>LIMIT\<close> and \<open>OFFSET\<close> exactly when their number is not
  zero, \<open>ORDER BY\<close> and \<open>GROUP BY\<close> exactly when their column list is not empty; the
  arguments are those of the compiled search. A panic of the compiler is the panic of
  \<open>ConditionExec\<close>.
\<close>

theorem ConditionExec_clause_order:
  "ConditionExec search limit offset orderBy groupBy =
     (let tail = (if limit \<noteq> 0 then '' LIMIT '' @ format_d (sint limit) else []) @
                 (if offset \<noteq> 0 then '' OFFSET '' @ format_d (sint offset) else []) @
                 (if orderBy \<noteq> [] then '' ORDER BY '' @ Join (map Column orderBy) '','' else []) @
                 (if groupBy \<noteq> [] then '' GROUP BY '' @ Join (map Column groupBy) '','' else [])
      in if search = [] then Inr \<lparr>query = tail, args = []\<rparr>
         else (case SearchExec search of
                 Inl e \<Rightarrow> Inl e
               | Inr w \<Rightarrow> Inr \<lparr>query = '' WHERE '' @ query w @ tail, args = args w\<rparr>))"
  by (rule ConditionExec_closed)

theorem ConditionExec_clause_order_witness:
  "ConditionExec [\<lparr>Type = ExprEqual, Val = Some \<lparr>Column = ''a'', Value = ValueOf (VInt 1)\<rparr>\<rparr>] 10 5
     [\<lparr>Column = ''name''\<rparr>] [\<lparr>Column = ''age''\<rparr>, \<lparr>Column = ''sex''\<rparr>] =
   Inr \<lparr>query = '' WHERE a = ? LIMIT 10 OFFSET 5 ORDER BY name GROUP BY age,sex'',
        args = [VInt 1]\<rparr>"
  using ConditionExec_clause_order[of
      "[\<lparr>Type = ExprEqual, Val = Some \<lparr>Column = ''a'', Value = ValueOf (VInt 1)\<rparr>\<rparr>]" 10 5
      "[\<lparr>Column = ''name''\<rparr>]" "[\<lparr>Column = ''age''\<rparr>, \<lparr>Column = ''sex''\<rparr>]"]
  by (simp add: format_d_10 format_d_5 SearchExec_def step_compare)

subsection \<open>\<^verbatim>\<open>CreateTable\<close>\<close>

text \<open>
  Claim C7. When every name of the foreign-key map is a field of the model,
  \<open>CreateTable\<close> returns first one \<open>CREATE TABLE\<close> statement holding the column
  definitions (an auto-increment field as \<open>SERIAL\<close>), then the \<open>PRIMARY KEY\<close> clause
  with the primary columns in their order, then one \<open>FOREIGN KEY\<close> clause for each
  entry of the map; after it come the \<open>CREATE INDEX\<close> statements and after these the
  \<open>CREATE UNIQUE INDEX\<close> statements. No statement has arguments.
\<close>

theorem CreateTable_statements:
  assumes "\<forall>(name, key) \<in> set foreign. GetFieldWithName m name \<noteq> None"
  shows "CreateTable m foreign =
     Inr (\<lparr>query = ''CREATE TABLE '' @ dq @ Name m @ dq @ '' ('' @
             Join (map (\<lambda>f. Column f @ (if AutoIncrement f then '' SERIAL'' else '' '' @ SqlType f) @
                       concat (map (\<lambda>(k, v). if v = [] then '' '' @ k else '' '' @ k @ ''='' @ v)
                                 (Attrs f)))
                     (GetSqlFields m) @
                   [''PRIMARY KEY('' @ Join (map Column (GetPrimary m)) '','' @ '')''] @
                   map (\<lambda>(name, key).
                          ''FOREIGN KEY ('' @ Column (the (GetFieldWithName m name)) @
                            '') REFERENCES '' @ dq @ Name (FKModel key) @ dq @ ''('' @
                            Column (FKField key) @ '')'') foreign) '','' @ '')'',
            args = []\<rparr> #
          map (\<lambda>(key, fieldList).
                 \<lparr>query = ''CREATE INDEX '' @ key @ '' ON '' @ dq @ Name m @ dq @ ''('' @
                    Join (map Column fieldList) '','' @ '')'', args = []\<rparr>) (GetIndexMap m) @
          map (\<lambda>(key, fieldList).
                 \<lparr>query = ''CREATE UNIQUE INDEX '' @ key @ '' ON '' @ dq @ Name m @ dq @ ''('' @
                    Join (map Column fieldList) '','' @ '')'', args = []\<rparr>) (GetUniqueIndexMap m))"
proof -
  have fd: "(\<lambda>sqlField. field_def sqlField) =
      (\<lambda>f. Column f @ (if AutoIncrement f then '' SERIAL'' else '' '' @ SqlType f) @
         concat (map (\<lambda>(k, v). if v = [] then '' '' @ k else '' '' @ k @ ''='' @ v) (Attrs f)))"
    by (rule ext) (rule field_def_closed)
  show ?thesis
    unfolding CreateTable_def Let_def foldl_snoc_map foreign_loop_closed[OF assms]
    by (auto simp: fd DefaultExec_def index_str_def foldl_snoc_map split: prod.splits)
qed

theorem CreateTable_statements_witness:
  "CreateTable
     \<lparr>Name = ''blog'',
      GetSqlFields =
        [\<lparr>Column = ''id'', SqlType = ''BIGINT'', AutoIncrement = True, Attrs = []\<rparr>,
         \<lparr>Column = ''user_id'', SqlType = ''BIGINT'', AutoIncrement = False,
           Attrs = [(''NOT NULL'', []), (''DEFAULT'', ''0'')]\<rparr>],
      GetPrimary = [\<lparr>Column = ''id'', SqlType = ''BIGINT'', AutoIncrement = True, Attrs = []\<rparr>],
      GetFieldWithName =
        (\<lambda>name. if name = ''UserID''
                then Some \<lparr>Column = ''user_id'', SqlType = ''BIGINT'', AutoIncrement = False,
                            Attrs = [(''NOT NULL'', []), (''DEFAULT'', ''0'')]\<rparr>
                else None),
      GetIndexMap =
        [(''idx_blog_userid'',
          [\<lparr>Column = ''user_id'', SqlType = ''BIGINT'', AutoIncrement = False,
             Attrs = [(''NOT NULL'', []), (''DEFAULT'', ''0'')]\<rparr>])],
      GetUniqueIndexMap =
        [(''udx_blog_id'',
          [\<lparr>Column = ''id'', SqlType = ''BIGINT'', AutoIncrement = True, Attrs = []\<rparr>])]\<rparr>
     [(''UserID'',
       \<lparr>FKModel = \<lparr>Name = ''user'', GetSqlFields = [], GetPrimary = [],
                    GetFieldWithName = (\<lambda>name. None), GetIndexMap = [],
                    GetUniqueIndexMap = []\<rparr>,
        FKField = \<lparr>Column = ''id'', SqlType = ''BIGINT'', AutoIncrement = True, Attrs = []\<rparr>\<rparr>)]
   = Inr [\<lparr>query = ''CREATE TABLE '' @ dq @ ''blog'' @ dq @
                   '' (id SERIAL,user_id BIGINT NOT NULL DEFAULT=0,PRIMARY KEY(id),'' @
                   ''FOREIGN KEY (user_id) REFERENCES '' @ dq @ ''user'' @ dq @ ''(id))'',
            args = []\<rparr>,
          \<lparr>query = ''CREATE INDEX idx_blog_userid ON '' @ dq @ ''blog'' @ dq @ ''(user_id)'',
            args = []\<rparr>,
          \<lparr>query = ''CREATE UNIQUE INDEX udx_blog_id ON '' @ dq @ ''blog'' @ dq @ ''(id)'',
            args = []\<rparr>]"
  by (subst CreateTable_statements) simp_all

subsection \<open>\<^verbatim>\<open>InsertExec\<close>, \<^verbatim>\<open>ReplaceExec\<close> and \<^verbatim>\<open>InsertExecutor\<close>\<close>

text \<open>
  Claim C8. \<open>ReplaceExec\<close> is the \<open>INSERT\<close> of \<open>insertExec\<close> followed by the clause
  \<open>ON CONFLICT(<primary columns>) DO UPDATE SET ...\<close>, with the arguments of
  \<open>insertExec\<close> and no other. \<open>InsertExec\<close> is the same \<open>INSERT\<close> with the same
  arguments, followed by its own \<open>RETURNING\<close> clause or by nothing. When the Value of
  every column value holds a value that \<^verbatim>\<open>Interface()\<close> returns, the \<open>INSERT\<close> has one
  placeholder for each and the values in their order as arguments; when
  \<^verbatim>\<open>Interface()\<close> refuses one of them (the zero Value, a Value of an unexported field),
  the three builders panic.
\<close>

theorem ReplaceExec_upsert:
  "ReplaceExec m cvs =
     (case insertExec m cvs of
        Inl e \<Rightarrow> Inl e
      | Inr ins \<Rightarrow>
          Inr \<lparr>query = query ins @ '' ON CONFLICT('' @ Join (map Column (GetPrimary m)) '','' @
                  '') DO UPDATE SET '' @
                  Join (map (\<lambda>r. Column r @ '' = Excluded.'' @ Column r) cvs) '','',
               args = args ins\<rparr>)
   \<and> InsertExec m cvs =
     (case insertExec m cvs of
        Inl e \<Rightarrow> Inl e
      | Inr ins \<Rightarrow>
          Inr \<lparr>query = query ins @
                  (case GetPrimary m of
                     [p] \<Rightarrow> if AutoIncrement p then '' RETURNING '' @ Column p else []
                   | _ \<Rightarrow> []),
               args = args ins\<rparr>)
   \<and> (map Value cvs = map ValueOf vs \<longrightarrow>
        insertExec m cvs =
          Inr \<lparr>query = ''INSERT INTO '' @ dq @ Name m @ dq @ ''('' @ Join (map Column cvs) '','' @
                  '') VALUES('' @ Join (replicate (length cvs) ''?'') '','' @ '')'',
               args = vs\<rparr>
        \<and> ReplaceExec m cvs =
          Inr \<lparr>query = ''INSERT INTO '' @ dq @ Name m @ dq @ ''('' @ Join (map Column cvs) '','' @
                  '') VALUES('' @ Join (replicate (length cvs) ''?'') '','' @ '')'' @
                  '' ON CONFLICT('' @ Join (map Column (GetPrimary m)) '','' @
                  '') DO UPDATE SET '' @
                  Join (map (\<lambda>r. Column r @ '' = Excluded.'' @ Column r) cvs) '','',
               args = vs\<rparr>
        \<and> map_sum id args (InsertExec m cvs) = Inr vs)
   \<and> (\<not> list_all (\<lambda>r. CanInterface (Value r)) cvs \<longrightarrow>
        insertExec m cvs = Inl ReflectPanic \<and> ReplaceExec m cvs = Inl ReflectPanic
        \<and> InsertExec m cvs = Inl ReflectPanic)"
proof -
  have R: "ReplaceExec m cvs =
     (case insertExec m cvs of
        Inl e \<Rightarrow> Inl e
      | Inr ins \<Rightarrow>
          Inr \<lparr>query = query ins @ '' ON CONFLICT('' @ Join (map Column (GetPrimary m)) '','' @
                  '') DO UPDATE SET '' @
                  Join (map (\<lambda>r. Column r @ '' = Excluded.'' @ Column r) cvs) '','',
               args = args ins\<rparr>)"
    by (simp add: ReplaceExec_def Append_def foldl_snoc_map split: sum.splits)
  have I: "InsertExec m cvs =
     (case insertExec m cvs of
        Inl e \<Rightarrow> Inl e
      | Inr ins \<Rightarrow>
          Inr \<lparr>query = query ins @
                  (case GetPrimary m of
                     [p] \<Rightarrow> if AutoIncrement p then '' RETURNING '' @ Column p else []
                   | _ \<Rightarrow> []),
               args = args ins\<rparr>)"
    by (simp add: InsertExec_def Append_def split: sum.splits list.splits)
  have V: "insertExec m cvs =
          Inr \<lparr>query = ''INSERT INTO '' @ dq @ Name m @ dq @ ''('' @ Join (map Column cvs) '','' @
                  '') VALUES('' @ Join (replicate (length cvs) ''?'') '','' @ '')'',
               args = vs\<rparr>" if "map Value cvs = map ValueOf vs"
    using that by (rule insertExec_closed)
  have Z: "insertExec m cvs = Inl ReflectPanic" if "\<not> list_all (\<lambda>r. CanInterface (Value r)) cvs"
    using that by (rule insertExec_refused)
  show ?thesis
  proof (intro conjI impI)
    show "ReplaceExec m cvs =
     (case insertExec m cvs of
        Inl e \<Rightarrow> Inl e
      | Inr ins \<Rightarrow>
          Inr \<lparr>query = query ins @ '' ON CONFLICT('' @ Join (map Column (GetPrimary m)) '','' @
                  '') DO UPDATE SET '' @
                  Join (map (\<lambda>r. Column r @ '' = Excluded.'' @ Column r) cvs) '','',
               args = args ins\<rparr>)"
      by (rule R)
    show "InsertExec m cvs =
     (case insertExec m cvs of
        Inl e \<Rightarrow> Inl e
      | Inr ins \<Rightarrow>
          Inr \<lparr>query = query ins @
                  (case GetPrimary m of
                     [p] \<Rightarrow> if AutoIncrement p then '' RETURNING '' @ Column p else []
                   | _ \<Rightarrow> []),
               args = args ins\<rparr>)"
      by (rule I)
  next
    assume v: "map Value cvs = map ValueOf vs"
    show "insertExec m cvs =
          Inr \<lparr>query = ''INSERT INTO '' @ dq @ Name m @ dq @ ''('' @ Join (map Column cvs) '','' @
                  '') VALUES('' @ Join (replicate (length cvs) ''?'') '','' @ '')'',
               args = vs\<rparr>"
      by (rule V[OF v])
    show "ReplaceExec m cvs =
          Inr \<lparr>query = ''INSERT INTO '' @ dq @ Name m @ dq @ ''('' @ Join (map Column cvs) '','' @
                  '') VALUES('' @ Join (replicate (length cvs) ''?'') '','' @ '')'' @
                  '' ON CONFLICT('' @ Join (map Column (GetPrimary m)) '','' @
                  '') DO UPDATE SET '' @
                  Join (map (\<lambda>r. Column r @ '' = Excluded.'' @ Column r) cvs) '','',
               args = vs\<rparr>"
      by (simp add: R V[OF v])
    show "map_sum id args (InsertExec m cvs) = Inr vs"
      by (simp add: I V[OF v])
  next
    assume z: "\<not> list_all (\<lambda>r. CanInterface (Value r)) cvs"
    show "insertExec m cvs = Inl ReflectPanic" by (rule Z[OF z])
    show "ReplaceExec m cvs = Inl ReflectPanic" by (simp add: R Z[OF z])
    show "InsertExec m cvs = Inl ReflectPanic" by (simp add: I Z[OF z])
  qed
qed

theorem ReplaceExec_upsert_witness:
  "ReplaceExec
     \<lparr>Name = ''user'', GetSqlFields = [],
      GetPrimary = [\<lparr>Column = ''id'', SqlType = ''BIGINT'', AutoIncrement = True, Attrs = []\<rparr>],
      GetFieldWithName = (\<lambda>name. None), GetIndexMap = [], GetUniqueIndexMap = []\<rparr>
     [\<lparr>Column = ''id'', Value = ValueOf (VInt 1)\<rparr>,
      \<lparr>Column = ''name'', Value = ValueOf (VStr ''pigeon'')\<rparr>]
   = Inr \<lparr>query = ''INSERT INTO '' @ dq @ ''user'' @ dq @ ''(id,name) VALUES(?,?)'' @
             '' ON CONFLICT(id) DO UPDATE SET id = Excluded.id,name = Excluded.name'',
          args = [VInt 1, VStr ''pigeon'']\<rparr>
   \<and> ReplaceExec
     \<lparr>Name = ''user'', GetSqlFields = [],
      GetPrimary = [\<lparr>Column = ''id'', SqlType = ''BIGINT'', AutoIncrement = True, Attrs = []\<rparr>],
      GetFieldWithName = (\<lambda>name. None), GetIndexMap = [], GetUniqueIndexMap = []\<rparr>
     [\<lparr>Column = ''id'', Value = ZeroValue\<rparr>]
   = Inl ReflectPanic"
proof -
  let ?m = "\<lparr>Name = ''user'', GetSqlFields = [],
      GetPrimary = [\<lparr>Column = ''id'', SqlType = ''BIGINT'', AutoIncrement = True, Attrs = []\<rparr>],
      GetFieldWithName = (\<lambda>name. None), GetIndexMap = [], GetUniqueIndexMap = []\<rparr>"
  let ?cvs = "[\<lparr>Column = ''id'', Value = ValueOf (VInt 1)\<rparr>,
               \<lparr>Column = ''name'', Value = ValueOf (VStr ''pigeon'')\<rparr>]"
  let ?zs = "[\<lparr>Column = ''id'', Value = ZeroValue\<rparr>]"
  have v: "map Value ?cvs = map ValueOf [VInt 1, VStr ''pigeon'']" by simp
  have z: "\<not> list_all (\<lambda>r. CanInterface (Value r)) ?zs" by simp
  note V = ReplaceExec_upsert[of ?m ?cvs "[VInt 1, VStr ''pigeon'']",
      THEN conjunct2, THEN conjunct2, THEN conjunct1, rule_format, OF v]
  note Z = ReplaceExec_upsert[of ?m ?zs "[]",
      THEN conjunct2, THEN conjunct2, THEN conjunct2, rule_format, OF z]
  have "ReplaceExec ?m ?cvs =
      Inr \<lparr>query = ''INSERT INTO '' @ dq @ ''user'' @ dq @ ''(id,name) VALUES(?,?)'' @
             '' ON CONFLICT(id) DO UPDATE SET id = Excluded.id,name = Excluded.name'',
          args = [VInt 1, VStr ''pigeon'']\<rparr>"
    using V[THEN conjunct2, THEN conjunct1] by (simp add: numeral_2_eq_2)
  moreover have "ReplaceExec ?m ?zs = Inl ReflectPanic"
    using Z[THEN conjunct2, THEN conjunct1] .
  ultimately show ?thesis by (rule conjI)
qed

text \<open>
  Claim C9. For a model with one primary field, which is auto-increment, \<open>InsertExec\<close>
  is the \<open>INSERT\<close> with one placeholder for each column value and the values in their
  order as arguments, followed by \<open>RETURNING\<close> and the primary column (it panics when
  \<^verbatim>\<open>Interface()\<close> refuses the Value of a column value); when the scan of the returned row
  writes the key \<open>v\<close> and returns no error, \<open>InsertExecutor\<close> on this statement returns
  a result whose \<open>LastInsertId\<close> is \<open>v\<close>, with no error.
\<close>

theorem InsertExec_returning:
  assumes "GetPrimary m = [p]" and "AutoIncrement p"
  shows "(map Value cvs = map ValueOf vs \<longrightarrow>
            InsertExec m cvs =
              Inr \<lparr>query = ''INSERT INTO '' @ dq @ Name m @ dq @ ''('' @
                      Join (map Column cvs) '','' @ '') VALUES('' @
                      Join (replicate (length cvs) ''?'') '','' @ '') RETURNING '' @ Column p,
                   args = vs\<rparr>)
       \<and> (\<not> list_all (\<lambda>r. CanInterface (Value r)) cvs \<longrightarrow> InsertExec m cvs = Inl ReflectPanic)
       \<and> (InsertExec m cvs = Inr e \<longrightarrow> db (Query e) (Args e) = (Some v, None) \<longrightarrow>
            LastInsertId (fst (InsertExecutor db Query JsonArgs e)) = (v, None)
            \<and> fst (snd (InsertExecutor db Query JsonArgs e)) = None)"
proof (intro conjI impI)
  assume "map Value cvs = map ValueOf vs"
  then show "InsertExec m cvs =
              Inr \<lparr>query = ''INSERT INTO '' @ dq @ Name m @ dq @ ''('' @
                      Join (map Column cvs) '','' @ '') VALUES('' @
                      Join (replicate (length cvs) ''?'') '','' @ '') RETURNING '' @ Column p,
                   args = vs\<rparr>"
    using assms by (simp add: InsertExec_def insertExec_closed Append_def)
next
  assume "\<not> list_all (\<lambda>r. CanInterface (Value r)) cvs"
  then show "InsertExec m cvs = Inl ReflectPanic"
    by (simp add: InsertExec_def insertExec_refused)
next
  assume "db (Query e) (Args e) = (Some v, None)"
  then show "LastInsertId (fst (InsertExecutor db Query JsonArgs e)) = (v, None)"
    by (simp add: InsertExecutor_def LastInsertId_def)
next
  assume "db (Query e) (Args e) = (Some v, None)"
  then show "fst (snd (InsertExecutor db Query JsonArgs e)) = None"
    by (simp add: InsertExecutor_def)
qed

theorem InsertExec_returning_witness:
  "InsertExec
     \<lparr>Name = ''user'', GetSqlFields = [],
      GetPrimary = [\<lparr>Column = ''id'', SqlType = ''BIGINT'', AutoIncrement = True, Attrs = []\<rparr>],
      GetFieldWithName = (\<lambda>name. None), GetIndexMap = [], GetUniqueIndexMap = []\<rparr>
     [\<lparr>Column = ''name'', Value = ValueOf (VStr ''pigeon'')\<rparr>,
      \<lparr>Column = ''age'', Value = ValueOf (VInt 18)\<rparr>]
   = Inr \<lparr>query = ''INSERT INTO '' @ dq @ ''user'' @ dq @
                    ''(name,age) VALUES(?,?) RETURNING id'',
          args = [VStr ''pigeon'', VInt 18]\<rparr>
   \<and> LastInsertId (fst (InsertExecutor (\<lambda>q a. (Some 7, None)) query (\<lambda>e. ''[]'')
        \<lparr>query = ''INSERT INTO '' @ dq @ ''user'' @ dq @
                    ''(name,age) VALUES(?,?) RETURNING id'',
          args = [VStr ''pigeon'', VInt 18]\<rparr>)) = (7, None)"
proof -
  let ?p = "\<lparr>Column = ''id'', SqlType = ''BIGINT'', AutoIncrement = True, Attrs = []\<rparr>"
  let ?m = "\<lparr>Name = ''user'', GetSqlFields = [], GetPrimary = [?p],
             GetFieldWithName = (\<lambda>name. None), GetIndexMap = [], GetUniqueIndexMap = []\<rparr>"
  let ?cvs = "[\<lparr>Column = ''name'', Value = ValueOf (VStr ''pigeon'')\<rparr>,
               \<lparr>Column = ''age'', Value = ValueOf (VInt 18)\<rparr>]"
  let ?e = "\<lparr>query = ''INSERT INTO '' @ dq @ ''user'' @ dq @
                    ''(name,age) VALUES(?,?) RETURNING id'',
             args = [VStr ''pigeon'', VInt 18]\<rparr>"
  have p: "GetPrimary ?m = [?p]" and a: "AutoIncrement ?p" by simp_all
  have v: "map Value ?cvs = map ValueOf [VStr ''pigeon'', VInt 18]" by simp
  note R = InsertExec_returning[OF p a, of ?cvs "[VStr ''pigeon'', VInt 18]" ?e
      "\<lambda>q a. (Some 7, None)" query 7 "\<lambda>e. ''[]''"]
  have 1: "InsertExec ?m ?cvs = Inr ?e"
    using R[THEN conjunct1, rule_format, OF v] by (simp add: numeral_2_eq_2)
  have 2: "LastInsertId (fst (InsertExecutor (\<lambda>q a. (Some 7, None)) query (\<lambda>e. ''[]'') ?e))
             = (7, None)"
    using R[THEN conjunct2, THEN conjunct2, rule_format, OF 1] by simp
  show ?thesis using 1 2 by (rule conjI)
qed

text \<open>
  Claim C10. When the scan of the returned row fails with \<open>ErrNoRows\<close>,
  \<open>InsertExecutor\<close> returns no error (the debug printer sees none either) and the
  result keeps \<open>ErrNoRows\<close>, which \<open>LastInsertId\<close> returns. Every other outcome of the
  scan is returned as the error of \<open>InsertExecutor\<close>, and the result keeps no error.
\<close>

theorem InsertExecutor_errors:
  assumes "db (Query exec) (Args exec) = (written, scanErr)"
    and "InsertExecutor db Query JsonArgs exec = (result, err, dbg)"
  shows "(scanErr = Some ErrNoRows \<longrightarrow>
            err = None \<and> snd (LastInsertId result) = Some ErrNoRows \<and> snd (snd dbg) = None)
       \<and> (scanErr \<noteq> Some ErrNoRows \<longrightarrow>
            err = scanErr \<and> snd (LastInsertId result) = None)"
  using assms by (auto simp: InsertExecutor_def LastInsertId_def Let_def split: option.splits)

theorem InsertExecutor_errors_witness:
  "fst (snd (InsertExecutor (\<lambda>q a. (None, Some ErrNoRows)) query (\<lambda>e. ''[]'')
              \<lparr>query = ''INSERT'', args = []\<rparr>)) = None
   \<and> snd (LastInsertId (fst (InsertExecutor (\<lambda>q a. (None, Some ErrNoRows)) query (\<lambda>e. ''[]'')
              \<lparr>query = ''INSERT'', args = []\<rparr>))) = Some ErrNoRows
   \<and> fst (snd (InsertExecutor (\<lambda>q a. (None, Some (OtherError ''closed''))) query (\<lambda>e. ''[]'')
              \<lparr>query = ''INSERT'', args = []\<rparr>)) = Some (OtherError ''closed'')"
proof -
  let ?ex = "\<lparr>query = ''INSERT'', args = []\<rparr>"
  let ?db1 = "\<lambda>(q :: string) (a :: val list). (None :: 64 word option, Some ErrNoRows)"
  let ?db2 = "\<lambda>(q :: string) (a :: val list). (None :: 64 word option, Some (OtherError ''closed''))"
  obtain r1 e1 d1 where 1: "InsertExecutor ?db1 query (\<lambda>e. ''[]'') ?ex = (r1, e1, d1)"
    by (rule prod_cases3)
  obtain r2 e2 d2 where 2: "InsertExecutor ?db2 query (\<lambda>e. ''[]'') ?ex = (r2, e2, d2)"
    by (rule prod_cases3)
  have "e1 = None \<and> snd (LastInsertId r1) = Some ErrNoRows"
    using InsertExecutor_errors[OF _ 1, of None "Some ErrNoRows"] by simp
  moreover have "e2 = Some (OtherError ''closed'')"
    using InsertExecutor_errors[OF _ 2, of None "Some (OtherError ''closed'')"] by simp
  ultimately show ?thesis by (simp add: 1 2)
qed

end
